theory Spec2Isabelle
  imports Complex_Main "HOL-Library.Log_Nat"
begin

section \<open>The table cropper HTTP service (fastapi_app.py)\<close>

text \<open>
  The service has two request handlers, \<open>crop_and_perspective_correction\<close>
  (POST /api/crop-preview) and \<open>split_image_halves\<close> (POST /api/split-halves), and the
  helpers \<open>_validate_image_content_type\<close>, \<open>_pil_to_png_bytes\<close>,
  \<open>_process_with_cropper\<close> and \<open>upload_to_tmpfiles\<close>. The leading underscore of
  a Python name is dropped here, and the handlers' parameter \<open>image\<close> is
  \<open>image_file\<close>. Everything outside the file (Pillow, requests, the
  table cropper, the file system) is a field of an environment record; the calls a
  handler makes to it are recorded in a trace of events.
\<close>

subsection \<open>Exceptions\<close>

text \<open>
  Two kinds of exception are told apart by the \<open>except\<close> clauses of the source:
  FastAPI's \<open>HTTPException(status_code, detail)\<close>, and everything else, of which only
  \<open>str(e)\<close> is ever used.
\<close>

datatype pyexn = HTTPException int string | Exception string

type_synonym bytes = "char list"

definition bind_exn :: "'e + 'a \<Rightarrow> ('a \<Rightarrow> 'e + 'b) \<Rightarrow> 'e + 'b" where
  "bind_exn m f = (case m of Inl e \<Rightarrow> Inl e | Inr a \<Rightarrow> f a)"

subsection \<open>Python strings\<close>

text \<open>
  A \<open>str\<close> is a list of characters. Header values and URLs reach the handlers as
  code points below 256, which is what \<open>char\<close> holds. \<open>str.lower\<close> on these code points
  moves A-Z, and the Latin-1 capitals 192-222 other than 215, up by 32.
\<close>

definition lower_char :: "char \<Rightarrow> char" where
  "lower_char c =
     (let n = (of_char c :: nat)
      in if (65 \<le> n \<and> n \<le> 90) \<or> (192 \<le> n \<and> n \<le> 222 \<and> n \<noteq> 215)
         then char_of (n + 32) else c)"

definition str_lower :: "string \<Rightarrow> string" where
  "str_lower s = map lower_char s"

definition startswith :: "string \<Rightarrow> string \<Rightarrow> bool" where
  "startswith s p = (take (length p) s = p)"

definition endswith :: "string \<Rightarrow> string \<Rightarrow> bool" where
  "endswith s p = (length p \<le> length s \<and> drop (length s - length p) s = p)"

text \<open>\<open>p in s\<close>: the pattern occurs at some position of the string.\<close>

fun contains :: "string \<Rightarrow> string \<Rightarrow> bool" where
  "contains p [] = (p = [])"
| "contains p (c # cs) = (startswith (c # cs) p \<or> contains p cs)"

text \<open>
  \<open>s.replace(old, new)\<close> replaces every occurrence of \<open>old\<close>, scanning from the left
  and resuming after each replaced occurrence. With an empty \<open>old\<close> Python puts \<open>new\<close>
  before every character and at the end.
\<close>

function str_replace :: "string \<Rightarrow> string \<Rightarrow> string \<Rightarrow> string" where
  "str_replace s old new =
     (if old = [] then new @ concat (map (\<lambda>c. c # new) s)
      else if s = [] then []
      else if startswith s old then new @ str_replace (drop (length old) s) old new
      else hd s # str_replace (tl s) old new)"
  by pat_completeness auto
termination
  by (relation "measure (\<lambda>(s, old, new). length s)") auto

declare str_replace.simps [simp del]

definition quote :: "string \<Rightarrow> string" where
  "quote s = CHR 0x27 # s @ [CHR 0x27]"

fun str_of_nat :: "nat \<Rightarrow> string" where
  "str_of_nat n =
     (if n < 10 then [char_of (48 + n)]
      else str_of_nat (n div 10) @ [char_of (48 + n mod 10)])"

declare str_of_nat.simps [simp del]

definition str_of_int :: "int \<Rightarrow> string" where
  "str_of_int i = (if i < 0 then CHR ''-'' # str_of_nat (nat (- i)) else str_of_nat (nat i))"

text \<open>\<open>x or default\<close> on an optional string: \<open>None\<close> and the empty string are falsy.\<close>

definition str_or :: "string option \<Rightarrow> string \<Rightarrow> string" where
  "str_or x d = (case x of None \<Rightarrow> d | Some s \<Rightarrow> if s = [] then d else s)"

subsection \<open>os.path (POSIX)\<close>

definition basename :: "string \<Rightarrow> string" where
  "basename p = rev (takeWhile (\<lambda>c. c \<noteq> CHR ''/'') (rev p))"

text \<open>
  \<open>os.path.splitext\<close>: the extension starts at the last dot of the last path component,
  unless only dots come before it in that component.
\<close>

definition splitext :: "string \<Rightarrow> string \<times> string" where
  "splitext p =
     (let name = basename p;
          dir = take (length p - length name) p;
          ext = CHR ''.'' # rev (takeWhile (\<lambda>c. c \<noteq> CHR ''.'') (rev name));
          stem = take (length name - length ext) name
      in if CHR ''.'' \<in> set name \<and> list_ex (\<lambda>c. c \<noteq> CHR ''.'') stem
         then (dir @ stem, ext) else (p, []))"

subsection \<open>JSON values, as \<open>response.json()\<close> returns them\<close>

text \<open>
  A JSON float is kept as mantissa and decimal exponent; only its type name and whether
  it is zero matter below. An object is the list of its members in document order; of
  two members with one key Python's decoder keeps the later.
\<close>

datatype json =
    JNull | JBool bool | JInt int | JFloat int int | JStr string
  | JArr "json list" | JObj "(string \<times> json) list"

fun type_name :: "json \<Rightarrow> string" where
  "type_name JNull = ''NoneType''"
| "type_name (JBool b) = ''bool''"
| "type_name (JInt i) = ''int''"
| "type_name (JFloat m e) = ''float''"
| "type_name (JStr s) = ''str''"
| "type_name (JArr xs) = ''list''"
| "type_name (JObj kvs) = ''dict''"

fun truthy :: "json \<Rightarrow> bool" where
  "truthy JNull = False"
| "truthy (JBool b) = b"
| "truthy (JInt i) = (i \<noteq> 0)"
| "truthy (JFloat m e) = (m \<noteq> 0)"
| "truthy (JStr s) = (s \<noteq> [])"
| "truthy (JArr xs) = (xs \<noteq> [])"
| "truthy (JObj kvs) = (kvs \<noteq> [])"

text \<open>The message of the AttributeError raised by \<open>v.attr\<close> when \<open>v\<close> has no such attribute.\<close>

definition attribute_error :: "json \<Rightarrow> string \<Rightarrow> string" where
  "attribute_error v attr =
     quote (type_name v) @ '' object has no attribute '' @ quote attr"

text \<open>\<open>v.get(key, default)\<close>: a dict method; any other value raises AttributeError.\<close>

fun py_get :: "json \<Rightarrow> string \<Rightarrow> json \<Rightarrow> string + json" where
  "py_get (JObj kvs) k d = Inr (case map_of (rev kvs) k of None \<Rightarrow> d | Some v \<Rightarrow> v)"
| "py_get v k d = Inl (attribute_error v ''get'')"

subsection \<open>Pillow images\<close>

text \<open>
  An image has a mode (a string such as RGB), a size and its pixels, row by row.
  The pixel type is left open; cropping outside the image fills with \<open>0\<close>.
\<close>

record 'p image =
  mode :: string
  width :: int
  height :: int
  pixels :: "'p list list"

definition wf_image :: "'p image \<Rightarrow> bool" where
  "wf_image im =
     (0 \<le> width im \<and> 0 \<le> height im \<and> int (length (pixels im)) = height im \<and>
      list_all (\<lambda>row. int (length row) = width im) (pixels im))"

definition pixel_at :: "'p::zero image \<Rightarrow> int \<Rightarrow> int \<Rightarrow> 'p" where
  "pixel_at im x y =
     (if 0 \<le> x \<and> x < width im \<and> 0 \<le> y \<and> y < height im
      then pixels im ! nat y ! nat x else 0)"

text \<open>
  \<open>Image.crop((left, upper, right, lower))\<close>: the result has size
  \<open>(right - left, lower - upper)\<close> and keeps the mode; Pillow raises ValueError when
  the box is inverted.
\<close>

definition crop :: "'p::zero image \<Rightarrow> int \<times> int \<times> int \<times> int \<Rightarrow> string + 'p image" where
  "crop im box =
     (case box of (left, upper, right, lower) \<Rightarrow>
        if right < left
        then Inl (''Coordinate '' @ quote ''right'' @ '' is less than '' @ quote ''left'')
        else if lower < upper
        then Inl (''Coordinate '' @ quote ''lower'' @ '' is less than '' @ quote ''upper'')
        else Inr \<lparr>mode = mode im, width = right - left, height = lower - upper,
                  pixels = map (\<lambda>y. map (\<lambda>x. pixel_at im x y) [left..right - 1])
                               [upper..lower - 1]\<rparr>)"

subsection \<open>Floating point: \<open>int(c * n)\<close> for a float literal \<open>c\<close> and an int \<open>n\<close>\<close>

text \<open>
  A positive double is \<open>m / 2 ^ e\<close> with \<open>m < 2 ^ 53\<close>. \<open>round_to_53_bits\<close> rounds an
  integer to 53 significant bits, to nearest and ties to even, which is what IEEE 754
  does to the exact result of an operation (scaling by a power of two does not change
  the rounding as long as the result is neither subnormal nor too large; products of
  an image dimension with 0.27 or 0.12 are neither).
  \<open>int_of_product\<close> is Python's \<open>int(c * n)\<close> for a positive \<open>c\<close>: \<open>n\<close> is converted to
  a double, the product is rounded, and \<open>int\<close> truncates towards zero. An \<open>n\<close> too large
  for a double, on which Python raises OverflowError, is outside this model.
\<close>

definition round_to_53_bits :: "int \<Rightarrow> int" where
  "round_to_53_bits n =
     (let k = bitlen n - 53
      in if k \<le> 0 then n
         else let u = 2 ^ nat k; q = n div u; r = n mod u
              in (if u < 2 * r \<or> (2 * r = u \<and> odd q) then q + 1 else q) * u)"

definition int_of_product :: "int \<times> nat \<Rightarrow> int \<Rightarrow> int" where
  "int_of_product c n =
     (case c of (m, e) \<Rightarrow>
        let a = round_to_53_bits \<bar>n\<bar>;
            p = round_to_53_bits (m * a);
            t = p div 2 ^ e
        in if n < 0 then - t else t)"

text \<open>The doubles nearest to 0.27 and 0.12 (\<open>float.as_integer_ratio\<close>).\<close>

definition double_0_27 :: "int \<times> nat" where
  "double_0_27 = (607985949695017, 51)"

definition double_0_12 :: "int \<times> nat" where
  "double_0_12 = (1080863910568919, 53)"

subsection \<open>The environment and the trace\<close>

text \<open>
  An uploaded file (\<open>UploadFile\<close>): the declared content type, the file name, and the
  bytes that \<open>await image.read()\<close> returns.
\<close>

record upload =
  content_type :: "string option"
  filename :: "string option"
  body :: bytes

text \<open>A \<open>requests\<close> response; \<open>resp_json\<close> is what \<open>response.json()\<close> returns or raises.\<close>

record response =
  resp_status :: int
  resp_text :: string
  resp_content :: bytes
  resp_json :: "string + json"

text \<open>
  The library calls of the source. Each returns its value or the message (\<open>str(e)\<close>) of
  the exception it raises. \<open>process_image\<close> stands for writing the temporary file and
  running \<open>AdvancedTableCropper.process_image\<close> on it; its result is a dict from
  candidate names to images, where a name may also be bound to \<open>None\<close>.
\<close>

record 'p env =
  image_open :: "bytes \<Rightarrow> string + 'p image"
  convert :: "'p image \<Rightarrow> string \<Rightarrow> string + 'p image"
  save_png :: "'p image \<Rightarrow> string + bytes"
  process_image :: "bytes \<Rightarrow> string \<Rightarrow> string + (string \<Rightarrow> 'p image option option)"
  http_post :: "string \<Rightarrow> bytes \<Rightarrow> string + response"
  http_get :: "string \<Rightarrow> string + response"

datatype 'p event =
    Decode bytes
  | Cropper bytes string
  | Encode "'p image"
  | Download string
  | Publish string bytes

text \<open>A computation returns a value or raises, and leaves the events it performed.\<close>

type_synonym ('a, 'p) io = "(pyexn + 'a) \<times> 'p event list"

definition return_io :: "'a \<Rightarrow> ('a, 'p) io" where
  "return_io a = (Inr a, [])"

definition raise_io :: "pyexn \<Rightarrow> ('a, 'p) io" where
  "raise_io e = (Inl e, [])"

definition bind_io :: "('a, 'p) io \<Rightarrow> ('a \<Rightarrow> ('b, 'p) io) \<Rightarrow> ('b, 'p) io" where
  "bind_io m f =
     (case m of
        (Inl e, tr) \<Rightarrow> (Inl e, tr)
      | (Inr a, tr) \<Rightarrow> (case f a of (r, tr') \<Rightarrow> (r, tr @ tr')))"

text \<open>A library call that raises, raises a plain exception with that message.\<close>

definition lib :: "string + 'a \<Rightarrow> pyexn + 'a" where
  "lib r = (case r of Inl m \<Rightarrow> Inl (Exception m) | Inr a \<Rightarrow> Inr a)"

text \<open>
  The handlers' outer \<open>except HTTPException: raise\<close> and
  \<open>except Exception as exc: raise HTTPException(status_code=500, detail=...)\<close>.
\<close>

definition rewrap_500 :: "string \<Rightarrow> ('a, 'p) io \<Rightarrow> ('a, 'p) io" where
  "rewrap_500 label m =
     (case m of
        (Inl (Exception msg), tr) \<Rightarrow> (Inl (HTTPException 500 (label @ msg)), tr)
      | _ \<Rightarrow> m)"

subsection \<open>The helpers\<close>

definition image_exts :: "string list" where
  "image_exts = [''jpeg'', ''jpg'', ''png'', ''bmp'', ''tiff'']"

definition unsupported_type :: pyexn where
  "unsupported_type =
     HTTPException 400 ''Unsupported file type. Upload PNG/JPG/JPEG/BMP/TIFF.''"

definition validate_image_content_type :: "upload \<Rightarrow> pyexn + unit" where
  "validate_image_content_type upload =
     (let content_type = str_lower (str_or (content_type upload) [])
      in if \<not> list_ex (\<lambda>ext. endswith content_type ext) image_exts
         then Inl unsupported_type else Inr ())"

definition pil_to_png_bytes :: "'p env \<Rightarrow> 'p image \<Rightarrow> (bytes, 'p) io" where
  "pil_to_png_bytes env pil_img =
     (if mode pil_img \<notin> {''RGB'', ''RGBA''}
      then (case convert env pil_img ''RGB'' of
              Inl m \<Rightarrow> (Inl (Exception m), [])
            | Inr save_img \<Rightarrow> (lib (save_png env save_img), [Encode save_img]))
      else (lib (save_png env pil_img), [Encode pil_img]))"

definition process_with_cropper ::
  "'p env \<Rightarrow> bytes \<Rightarrow> string \<Rightarrow> ((string \<Rightarrow> 'p image option option) \<times> string, 'p) io" where
  "process_with_cropper env file_bytes original_name =
     (bind_exn (lib (process_image env file_bytes original_name))
        (\<lambda>result. Inr (result, fst (splitext (basename original_name)))),
      [Cropper file_bytes original_name])"

text \<open>Lines 83-86: what \<open>upload_to_tmpfiles\<close> does to the URL of the service's answer.\<close>

definition normalize_file_url :: "string \<Rightarrow> string" where
  "normalize_file_url file_url =
     (let file_url = (if startswith file_url ''http://''
                      then str_replace file_url ''http://'' ''https://'' else file_url)
      in if \<not> contains ''/dl/'' file_url
         then str_replace file_url ''tmpfiles.org/'' ''tmpfiles.org/dl/'' else file_url)"

text \<open>
  The body of the \<open>try\<close> of \<open>upload_to_tmpfiles\<close>: the URL, or the message of whatever
  it raises, the final \<open>raise Exception(f"Upload failed: {response.text}")\<close> included.
\<close>

definition upload_attempt :: "'p env \<Rightarrow> bytes \<Rightarrow> string \<Rightarrow> string + string" where
  "upload_attempt env image_bytes file_name =
     bind_exn (http_post env file_name image_bytes) (\<lambda>response.
       if resp_status response = 200
       then bind_exn (resp_json response) (\<lambda>data.
              bind_exn (py_get data ''status'' JNull) (\<lambda>status.
                if status = JStr ''success''
                then bind_exn (py_get data ''data'' (JObj [])) (\<lambda>d.
                       bind_exn (py_get d ''url'' (JStr [])) (\<lambda>file_url.
                         if truthy file_url
                         then (case file_url of
                                 JStr u \<Rightarrow> Inr (normalize_file_url u)
                               | _ \<Rightarrow> Inl (attribute_error file_url ''startswith''))
                         else Inl (''Upload failed: '' @ resp_text response)))
                else Inl (''Upload failed: '' @ resp_text response)))
       else Inl (''Upload failed: '' @ resp_text response))"

definition upload_to_tmpfiles :: "'p env \<Rightarrow> bytes \<Rightarrow> string \<Rightarrow> (string, 'p) io" where
  "upload_to_tmpfiles env image_bytes file_name =
     ((case upload_attempt env image_bytes file_name of
         Inl m \<Rightarrow> Inl (Exception (''Failed to upload to tmpfiles.org: '' @ m))
       | Inr file_url \<Rightarrow> Inr file_url),
      [Publish file_name image_bytes])"

subsection \<open>POST /api/crop-preview\<close>

text \<open>
  \<open>result.get(k)\<close> on the cropper's dict, and the chain
  \<open>result.get(...) or result.get(...) or result.get(...)\<close>: an image is truthy,
  \<open>None\<close> is not.
\<close>

definition dict_get :: "(string \<Rightarrow> 'v option option) \<Rightarrow> string \<Rightarrow> 'v option" where
  "dict_get d k = (case d k of None \<Rightarrow> None | Some v \<Rightarrow> v)"

definition or_else :: "'v option \<Rightarrow> 'v option \<Rightarrow> 'v option" where
  "or_else a b = (case a of Some v \<Rightarrow> Some v | None \<Rightarrow> b)"

definition select_output :: "(string \<Rightarrow> 'v option option) \<Rightarrow> 'v option" where
  "select_output result =
     or_else (dict_get result ''perspective_corrected'')
       (or_else (dict_get result ''cropped_table'') (dict_get result ''original''))"

text \<open>Lines 116-120: the box handed to \<open>out_img.crop\<close>.\<close>

definition preview_box :: "int \<Rightarrow> int \<Rightarrow> int \<times> int \<times> int \<times> int" where
  "preview_box w h =
     (let left_trim = int_of_product double_0_27 w;
          bottom_trim = int_of_product double_0_12 h;
          new_right = max (left_trim + 1) w;
          new_bottom = max 1 (h - bottom_trim)
      in (left_trim, 0, new_right, new_bottom))"

definition no_output :: pyexn where
  "no_output = HTTPException 500 ''Processing failed to produce an output image''"

definition empty_file :: pyexn where
  "empty_file = HTTPException 400 ''Empty file uploaded''"

text \<open>Lines 116-127: trim the selected image, encode it, publish it, answer.\<close>

definition publish_preview :: "'p::zero env \<Rightarrow> upload \<Rightarrow> 'p image \<Rightarrow> (json, 'p) io" where
  "publish_preview env image_file out_img =
     bind_io (lib (crop out_img (preview_box (width out_img) (height out_img))), [])
       (\<lambda>out_img.
     bind_io (pil_to_png_bytes env out_img) (\<lambda>png_bytes.
       let name_base = fst (splitext (basename (str_or (filename image_file) ''uploaded'')));
           file_name = name_base @ ''_preview.png''
       in
     bind_io (upload_to_tmpfiles env png_bytes file_name) (\<lambda>url.
       return_io (JObj [(''status'', JStr ''success''),
                        (''filename'', JStr file_name),
                        (''url'', JStr url)]))))"

text \<open>
  The name stored on \<open>_process_with_cropper._last_name\<close> is read back by the call that
  follows within the same request; it is passed as an argument here.
\<close>

definition crop_and_perspective_correction :: "'p::zero env \<Rightarrow> upload \<Rightarrow> (json, 'p) io" where
  "crop_and_perspective_correction env image_file =
     rewrap_500 ''Processing failed: ''
       (bind_io (validate_image_content_type image_file, []) (\<lambda>_.
          let last_name = str_or (filename image_file) ''uploaded.png'';
              file_bytes = body image_file
          in if file_bytes = [] then raise_io empty_file
             else
          bind_io (process_with_cropper env file_bytes last_name) (\<lambda>(result, base_name).
            case select_output result of
              None \<Rightarrow> raise_io no_output
            | Some out_img \<Rightarrow> publish_preview env image_file out_img)))"

subsection \<open>POST /api/split-halves\<close>

text \<open>Lines 157-161: the URL that is fetched for an \<open>image_url\<close>.\<close>

definition download_url :: "string \<Rightarrow> string" where
  "download_url image_url =
     (let url = (if startswith image_url ''http://''
                 then str_replace image_url ''http://'' ''https://'' else image_url)
      in if contains ''tmpfiles.org'' url \<and> \<not> contains ''/dl/'' url
         then str_replace url ''tmpfiles.org/'' ''tmpfiles.org/dl/'' else url)"

text \<open>Lines 168-170: the file name derived from the URL (\<open>url.split("?")[0]\<close> is the
  part before the first question mark).\<close>

definition name_of_url :: "string \<Rightarrow> string" where
  "name_of_url url =
     (let head = takeWhile (\<lambda>c. c \<noteq> CHR ''?'') url;
          original_name = basename (if head = [] then ''downloaded.png'' else head)
      in if original_name = [] then ''downloaded.png'' else original_name)"

definition missing_source :: pyexn where
  "missing_source =
     HTTPException 400
       (''Provide either '' @ quote ''image'' @ '' file or '' @ quote ''image_url'' @ '' form field'')"

text \<open>Lines 148-176: the bytes to split and the name they came under.\<close>

definition resolve_source ::
  "'p env \<Rightarrow> upload option \<Rightarrow> string option \<Rightarrow> (bytes \<times> string, 'p) io" where
  "resolve_source env image_file image_url =
     (case image_file of
        Some up \<Rightarrow>
          bind_io (validate_image_content_type up, []) (\<lambda>_.
            let file_bytes = body up
            in if file_bytes = [] then raise_io empty_file
               else return_io (file_bytes, str_or (filename up) ''uploaded.png''))
      | None \<Rightarrow>
          if str_or image_url [] \<noteq> []
          then (let url = download_url (str_or image_url [])
                in (case http_get env url of
                      Inl m \<Rightarrow>
                        Inl (HTTPException 400 (''Failed to download image from URL: '' @ m))
                    | Inr resp \<Rightarrow>
                        if resp_status resp \<noteq> 200
                        then Inl (HTTPException 400
                               (''Failed to download image: HTTP '' @ str_of_int (resp_status resp)))
                        else Inr (resp_content resp, name_of_url url),
                    [Download url]))
          else raise_io missing_source)"

text \<open>Lines 180-184: the two crops of the converted image.\<close>

definition bisect :: "'p::zero image \<Rightarrow> string + 'p image \<times> 'p image" where
  "bisect pil_img =
     (let w = width pil_img; h = height pil_img; mid = h div 2
      in bind_exn (crop pil_img (0, 0, w, mid)) (\<lambda>top_half.
         bind_exn (crop pil_img (0, mid, w, h)) (\<lambda>bottom_half.
           Inr (top_half, bottom_half))))"

definition split_image_halves ::
  "'p::zero env \<Rightarrow> upload option \<Rightarrow> string option \<Rightarrow> (json, 'p) io" where
  "split_image_halves env image_file image_url =
     rewrap_500 ''Split failed: ''
       (bind_io (resolve_source env image_file image_url) (\<lambda>(file_bytes, original_name).
        bind_io (lib (image_open env file_bytes), [Decode file_bytes]) (\<lambda>pil_img.
        bind_io (lib (convert env pil_img ''RGB''), []) (\<lambda>pil_img.
        bind_io (lib (bisect pil_img), []) (\<lambda>(top_half, bottom_half).
        bind_io (pil_to_png_bytes env top_half) (\<lambda>top_bytes.
        bind_io (pil_to_png_bytes env bottom_half) (\<lambda>bottom_bytes.
          let name_base = fst (splitext (basename original_name));
              top_name = name_base @ ''_top_half.png'';
              bottom_name = name_base @ ''_bottom_half.png''
          in
        bind_io (upload_to_tmpfiles env top_bytes top_name) (\<lambda>top_url.
        bind_io (upload_to_tmpfiles env bottom_bytes bottom_name) (\<lambda>bottom_url.
          return_io
            (JObj [(''status'', JStr ''success''),
                   (''top_half'', JObj [(''filename'', JStr top_name), (''url'', JStr top_url)]),
                   (''bottom_half'',
                      JObj [(''filename'', JStr bottom_name), (''url'', JStr bottom_url)])])
        )))))))))"

subsection \<open>The reading of the specification, for comparison\<close>

text \<open>
  "Ends with \<open>ext\<close>, compared case-insensitively": the last \<open>length ext\<close> characters of
  the string equal \<open>ext\<close> up to case.
\<close>

definition ci_endswith :: "string \<Rightarrow> string \<Rightarrow> bool" where
  "ci_endswith s ext =
     (length ext \<le> length s \<and> str_lower (drop (length s - length ext) s) = str_lower ext)"

text \<open>
  "The rectangle with left edge \<open>l\<close>, top edge \<open>u\<close>, right edge \<open>r\<close> and bottom edge \<open>b\<close>"
  of an image: of its rows \<open>u\<close> to \<open>b - 1\<close>, the pixels in columns \<open>l\<close> to \<open>r - 1\<close>.
\<close>

definition rectangle :: "'p image \<Rightarrow> int \<Rightarrow> int \<Rightarrow> int \<Rightarrow> int \<Rightarrow> 'p list list" where
  "rectangle im l u r b =
     map (\<lambda>row. take (nat (r - l)) (drop (nat l) row))
       (take (nat (b - u)) (drop (nat u) (pixels im)))"

subsection \<open>A sample environment\<close>

text \<open>
  Concrete collaborators on which the theorems below are instantiated: a 2 by 3 image,
  a converter that only relabels the mode, an encoder that writes the pixel values, a
  cropper that returns the image as \<open>original\<close>, and a hosting service that answers
  every upload with a plain-http URL.
\<close>

definition sample_image :: "nat image" where
  "sample_image = \<lparr>mode = ''RGB'', width = 2, height = 3, pixels = [[1, 2], [3, 4], [5, 6]]\<rparr>"

definition sample_upload :: upload where
  "sample_upload = \<lparr>content_type = Some ''image/png'', filename = Some ''scan.png'', body = ''raw''\<rparr>"

definition sample_post :: "string \<Rightarrow> bytes \<Rightarrow> string + response" where
  "sample_post file_name image_bytes =
     Inr \<lparr>resp_status = 200, resp_text = ''ok'', resp_content = [],
          resp_json = Inr (JObj [(''status'', JStr ''success''),
                                 (''data'', JObj [(''url'', JStr (''http://tmpfiles.org/7/'' @ file_name))])])\<rparr>"

definition sample_get :: "string \<Rightarrow> string + response" where
  "sample_get url = Inr \<lparr>resp_status = 200, resp_text = [], resp_content = ''raw'', resp_json = Inl ''no json''\<rparr>"

definition sample_cropper :: "bytes \<Rightarrow> string \<Rightarrow> string + (string \<Rightarrow> nat image option option)" where
  "sample_cropper file_bytes path = Inr (map_of [(''original'', Some sample_image)])"

definition sample_env :: "nat env" where
  "sample_env =
     \<lparr>image_open = (\<lambda>file_bytes. Inr sample_image),
      convert = (\<lambda>im m. Inr (im\<lparr>mode := m\<rparr>)),
      save_png = (\<lambda>im. Inr (map char_of (concat (pixels im)))),
      process_image = sample_cropper,
      http_post = sample_post,
      http_get = sample_get\<rparr>"

text \<open>The same service, except that it answers the upload of a bottom half with 503.\<close>

definition failing_post :: "string \<Rightarrow> bytes \<Rightarrow> string + response" where
  "failing_post file_name image_bytes =
     (if endswith file_name ''_bottom_half.png''
      then Inr \<lparr>resp_status = 503, resp_text = ''busy'', resp_content = [],
                resp_json = Inl ''no json''\<rparr>
      else sample_post file_name image_bytes)"

definition failing_env :: "nat env" where
  "failing_env = sample_env\<lparr>http_post := failing_post\<rparr>"

text \<open>A cropper that binds \<open>perspective_corrected\<close> to \<open>None\<close> and nothing else.\<close>

definition blank_cropper :: "bytes \<Rightarrow> string \<Rightarrow> string + (string \<Rightarrow> nat image option option)" where
  "blank_cropper file_bytes path = Inr (map_of [(''perspective_corrected'', None)])"

definition blank_env :: "nat env" where
  "blank_env = sample_env\<lparr>process_image := blank_cropper\<rparr>"

text \<open>
  A 4 by 9 image, which the preview trim cuts to the 3 by 8 image \<open>trimmed_image\<close>, a
  1 by 1 image, and two croppers that return several candidates at once: all three,
  and all three with \<open>perspective_corrected\<close> bound to \<open>None\<close>.
\<close>

definition trim_image :: "nat image" where
  "trim_image =
     \<lparr>mode = ''RGB'', width = 4, height = 9,
      pixels = [[1, 2, 3, 4], [5, 6, 7, 8], [9, 10, 11, 12], [13, 14, 15, 16],
                [17, 18, 19, 20], [21, 22, 23, 24], [25, 26, 27, 28], [29, 30, 31, 32],
                [33, 34, 35, 36]]\<rparr>"

definition trimmed_image :: "nat image" where
  "trimmed_image =
     \<lparr>mode = ''RGB'', width = 3, height = 8,
      pixels = [[2, 3, 4], [6, 7, 8], [10, 11, 12], [14, 15, 16], [18, 19, 20],
                [22, 23, 24], [26, 27, 28], [30, 31, 32]]\<rparr>"

definition tiny_image :: "nat image" where
  "tiny_image = \<lparr>mode = ''RGB'', width = 1, height = 1, pixels = [[9]]\<rparr>"

definition rival_cropper :: "bytes \<Rightarrow> string \<Rightarrow> string + (string \<Rightarrow> nat image option option)" where
  "rival_cropper file_bytes path =
     Inr (map_of [(''original'', Some sample_image), (''cropped_table'', Some tiny_image),
                  (''perspective_corrected'', Some trim_image)])"

definition rival_env :: "nat env" where
  "rival_env = sample_env\<lparr>process_image := rival_cropper\<rparr>"

definition fallback_cropper :: "bytes \<Rightarrow> string \<Rightarrow> string + (string \<Rightarrow> nat image option option)" where
  "fallback_cropper file_bytes path =
     Inr (map_of [(''original'', Some sample_image), (''perspective_corrected'', None),
                  (''cropped_table'', Some tiny_image)])"

definition fallback_env :: "nat env" where
  "fallback_env = sample_env\<lparr>process_image := fallback_cropper\<rparr>"

section \<open>Content-type validation\<close>

lemma str_lower_exts: "ext \<in> set image_exts \<Longrightarrow> str_lower ext = ext"
  by (auto simp: image_exts_def str_lower_def lower_char_def)

lemma endswith_lower:
  "str_lower ext = ext \<Longrightarrow> endswith (str_lower s) ext = ci_endswith s ext"
  by (simp add: endswith_def ci_endswith_def str_lower_def drop_map)

lemma list_ex_exts:
  "list_ex (\<lambda>ext. endswith (str_lower s) ext) image_exts = list_ex (ci_endswith s) image_exts"
  using str_lower_exts endswith_lower by (auto simp: list_ex_iff)

lemma validate_unfold:
  "validate_image_content_type up =
     (if list_ex (ci_endswith (str_or (content_type up) [])) image_exts then Inr ()
      else Inl unsupported_type)"
  unfolding validate_image_content_type_def Let_def list_ex_exts by simp

text \<open>A rejected upload ends either handler at once, with an empty trace.\<close>

lemma validate_reject_preview:
  "validate_image_content_type up = Inl e \<Longrightarrow>
   crop_and_perspective_correction env up = (Inl e, [])"
  by (auto simp: crop_and_perspective_correction_def bind_io_def rewrap_500_def
      validate_image_content_type_def unsupported_type_def split: if_splits)

lemma validate_reject_split:
  "validate_image_content_type up = Inl e \<Longrightarrow>
   split_image_halves env (Some up) u = (Inl e, [])"
  by (auto simp: split_image_halves_def resolve_source_def bind_io_def rewrap_500_def
      validate_image_content_type_def unsupported_type_def split: if_splits)

text \<open>
  C6. Whatever the declared content type \<open>s\<close> of an upload, validation accepts it if and
  only if \<open>s\<close> ends, up to case, with one of jpeg, jpg, png, bmp, tiff, and every other
  string is rejected with HTTPException 400. Validation is a function of the upload
  alone and returns nothing but this verdict; a handler that rejects on it has performed
  no event.
\<close>

theorem validate_image_content_type_accepts_iff:
  "validate_image_content_type (up\<lparr>content_type := Some s\<rparr>) =
     (if list_ex (ci_endswith s) [''jpeg'', ''jpg'', ''png'', ''bmp'', ''tiff''] then Inr ()
      else Inl (HTTPException 400 ''Unsupported file type. Upload PNG/JPG/JPEG/BMP/TIFF.''))
   \<and> (\<not> list_ex (ci_endswith s) [''jpeg'', ''jpg'', ''png'', ''bmp'', ''tiff''] \<longrightarrow>
        crop_and_perspective_correction env (up\<lparr>content_type := Some s\<rparr>) =
          (Inl (HTTPException 400 ''Unsupported file type. Upload PNG/JPG/JPEG/BMP/TIFF.''), [])
      \<and> split_image_halves env (Some (up\<lparr>content_type := Some s\<rparr>)) u =
          (Inl (HTTPException 400 ''Unsupported file type. Upload PNG/JPG/JPEG/BMP/TIFF.''), []))"
proof -
  have "str_or (Some s) [] = s"
    by (simp add: str_or_def)
  then have v: "validate_image_content_type (up\<lparr>content_type := Some s\<rparr>) =
      (if list_ex (ci_endswith s) [''jpeg'', ''jpg'', ''png'', ''bmp'', ''tiff''] then Inr ()
       else Inl (HTTPException 400 ''Unsupported file type. Upload PNG/JPG/JPEG/BMP/TIFF.''))"
    unfolding validate_unfold by (simp add: image_exts_def unsupported_type_def)
  show ?thesis
  proof (intro conjI impI)
    assume n: "\<not> list_ex (ci_endswith s) [''jpeg'', ''jpg'', ''png'', ''bmp'', ''tiff'']"
    have r: "validate_image_content_type (up\<lparr>content_type := Some s\<rparr>) =
        Inl (HTTPException 400 ''Unsupported file type. Upload PNG/JPG/JPEG/BMP/TIFF.'')"
      unfolding v if_not_P [OF n] by (rule refl)
    show "crop_and_perspective_correction env (up\<lparr>content_type := Some s\<rparr>) =
        (Inl (HTTPException 400 ''Unsupported file type. Upload PNG/JPG/JPEG/BMP/TIFF.''), [])"
      by (rule validate_reject_preview [OF r])
    show "split_image_halves env (Some (up\<lparr>content_type := Some s\<rparr>)) u =
        (Inl (HTTPException 400 ''Unsupported file type. Upload PNG/JPG/JPEG/BMP/TIFF.''), [])"
      by (rule validate_reject_split [OF r])
  qed (rule v)
qed

theorem validate_image_content_type_accepts_iff_witness:
  "validate_image_content_type \<lparr>content_type = Some ''image/PNG'', filename = None, body = []\<rparr>
     = Inr ()
   \<and> \<not> list_ex (ci_endswith ''text/html'') [''jpeg'', ''jpg'', ''png'', ''bmp'', ''tiff'']
   \<and> validate_image_content_type
        \<lparr>content_type = Some ''text/html'', filename = None, body = []\<rparr>
     = Inl (HTTPException 400 ''Unsupported file type. Upload PNG/JPG/JPEG/BMP/TIFF.'')
   \<and> crop_and_perspective_correction sample_env
        \<lparr>content_type = Some ''text/html'', filename = None, body = []\<rparr>
     = (Inl (HTTPException 400 ''Unsupported file type. Upload PNG/JPG/JPEG/BMP/TIFF.''), [])"
proof -
  have a: "list_ex (ci_endswith ''image/PNG'') [''jpeg'', ''jpg'', ''png'', ''bmp'', ''tiff'']"
    by code_simp
  have b: "\<not> list_ex (ci_endswith ''text/html'') [''jpeg'', ''jpg'', ''png'', ''bmp'', ''tiff'']"
    by code_simp
  note t1 = validate_image_content_type_accepts_iff
      [where up = "\<lparr>content_type = None, filename = None, body = []\<rparr>"
         and s = "''image/PNG''" and env = sample_env and u = None, THEN conjunct1]
  note t2 = validate_image_content_type_accepts_iff
      [where up = "\<lparr>content_type = None, filename = None, body = []\<rparr>"
         and s = "''text/html''" and env = sample_env and u = None]
  from t1 have "validate_image_content_type
      \<lparr>content_type = Some ''image/PNG'', filename = None, body = []\<rparr> = Inr ()"
    unfolding if_P [OF a] by simp
  moreover from t2 [THEN conjunct1] have "validate_image_content_type
      \<lparr>content_type = Some ''text/html'', filename = None, body = []\<rparr> =
      Inl (HTTPException 400 ''Unsupported file type. Upload PNG/JPG/JPEG/BMP/TIFF.'')"
    unfolding if_not_P [OF b] by simp
  moreover from t2 [THEN conjunct2, rule_format, OF b, THEN conjunct1]
  have "crop_and_perspective_correction sample_env
      \<lparr>content_type = Some ''text/html'', filename = None, body = []\<rparr> =
      (Inl (HTTPException 400 ''Unsupported file type. Upload PNG/JPG/JPEG/BMP/TIFF.''), [])"
    by simp
  ultimately show ?thesis
    using b by blast
qed

text \<open>
  C9. An upload whose declared content type is absent (\<open>None\<close>) or the empty string is
  rejected: validation returns HTTPException 400, and so does either handler, before
  any event.
\<close>

theorem validate_image_content_type_absent:
  "content_type up = None \<or> content_type up = Some [] \<Longrightarrow>
   str_or (content_type up) [] = []
   \<and> validate_image_content_type up =
       Inl (HTTPException 400 ''Unsupported file type. Upload PNG/JPG/JPEG/BMP/TIFF.'')
   \<and> crop_and_perspective_correction env up =
       (Inl (HTTPException 400 ''Unsupported file type. Upload PNG/JPG/JPEG/BMP/TIFF.''), [])
   \<and> split_image_halves env (Some up) u =
       (Inl (HTTPException 400 ''Unsupported file type. Upload PNG/JPG/JPEG/BMP/TIFF.''), [])"
proof -
  assume a: "content_type up = None \<or> content_type up = Some []"
  then have e: "str_or (content_type up) [] = []"
    by (auto simp: str_or_def)
  have "\<not> list_ex (ci_endswith []) image_exts"
    by (simp add: image_exts_def ci_endswith_def)
  then have v: "validate_image_content_type up =
      Inl (HTTPException 400 ''Unsupported file type. Upload PNG/JPG/JPEG/BMP/TIFF.'')"
    unfolding validate_unfold e by (simp add: unsupported_type_def)
  show ?thesis
    by (intro conjI e v validate_reject_preview [OF v] validate_reject_split [OF v])
qed

theorem validate_image_content_type_absent_witness:
  "validate_image_content_type \<lparr>content_type = None, filename = Some ''a.png'', body = ''x''\<rparr> =
     Inl (HTTPException 400 ''Unsupported file type. Upload PNG/JPG/JPEG/BMP/TIFF.'')
   \<and> validate_image_content_type \<lparr>content_type = Some [], filename = Some ''a.png'', body = ''x''\<rparr> =
     Inl (HTTPException 400 ''Unsupported file type. Upload PNG/JPG/JPEG/BMP/TIFF.'')"
proof -
  have "validate_image_content_type up =
      Inl (HTTPException 400 ''Unsupported file type. Upload PNG/JPG/JPEG/BMP/TIFF.'')"
    if "content_type up = None \<or> content_type up = Some []" for up
    using validate_image_content_type_absent [OF that] by (rule conjunct2 [THEN conjunct1])
  from this [of "\<lparr>content_type = None, filename = Some ''a.png'', body = ''x''\<rparr>"]
       this [of "\<lparr>content_type = Some [], filename = Some ''a.png'', body = ''x''\<rparr>"]
  show ?thesis by simp
qed

section \<open>Splitting into halves\<close>

text \<open>A row of a crop that spans the full width is the row of the image.\<close>

lemma crop_row:
  assumes "wf_image im" "0 \<le> y" "y < height im"
  shows "map (\<lambda>x. pixel_at im x y) [0..width im - 1] = pixels im ! nat y"
proof (rule nth_equalityI)
  have l: "int (length (pixels im ! nat y)) = width im"
    using assms by (auto simp: wf_image_def list_all_length)
  then show "length (map (\<lambda>x. pixel_at im x y) [0..width im - 1]) = length (pixels im ! nat y)"
    using assms by (simp add: wf_image_def)
  fix i assume "i < length (map (\<lambda>x. pixel_at im x y) [0..width im - 1])"
  then have i: "int i < width im" by simp
  then show "map (\<lambda>x. pixel_at im x y) [0..width im - 1] ! i = pixels im ! nat y ! i"
    using assms by (simp add: pixel_at_def)
qed

lemma crop_rows:
  assumes "wf_image im" "0 \<le> a" "a \<le> b" "b \<le> height im"
  shows "map (\<lambda>y. map (\<lambda>x. pixel_at im x y) [0..width im - 1]) [a..b - 1] =
         take (nat (b - a)) (drop (nat a) (pixels im))"
proof (rule nth_equalityI)
  have len: "int (length (pixels im)) = height im"
    using assms by (simp add: wf_image_def)
  show "length (map (\<lambda>y. map (\<lambda>x. pixel_at im x y) [0..width im - 1]) [a..b - 1]) =
        length (take (nat (b - a)) (drop (nat a) (pixels im)))"
    using assms len by simp
  fix i assume "i < length (map (\<lambda>y. map (\<lambda>x. pixel_at im x y) [0..width im - 1]) [a..b - 1])"
  then have i: "a + int i < b" by simp
  then have "map (\<lambda>y. map (\<lambda>x. pixel_at im x y) [0..width im - 1]) [a..b - 1] ! i
      = map (\<lambda>x. pixel_at im x (a + int i)) [0..width im - 1]"
    by simp
  also have "\<dots> = pixels im ! nat (a + int i)"
    using assms i by (intro crop_row) auto
  also have "\<dots> = take (nat (b - a)) (drop (nat a) (pixels im)) ! i"
    using assms i len by (simp add: nat_add_distrib)
  finally show "map (\<lambda>y. map (\<lambda>x. pixel_at im x y) [0..width im - 1]) [a..b - 1] ! i =
      take (nat (b - a)) (drop (nat a) (pixels im)) ! i" .
qed

lemma bisect_eq:
  assumes "wf_image im"
  shows "bisect im =
     Inr (\<lparr>mode = mode im, width = width im, height = height im div 2,
           pixels = take (nat (height im div 2)) (pixels im)\<rparr>,
          \<lparr>mode = mode im, width = width im, height = height im - height im div 2,
           pixels = drop (nat (height im div 2)) (pixels im)\<rparr>)"
proof -
  have h: "0 \<le> height im" "0 \<le> width im" "int (length (pixels im)) = height im"
    using assms by (simp_all add: wf_image_def)
  have t: "map (\<lambda>y. map (\<lambda>x. pixel_at im x y) [0..width im - 1]) [0..height im div 2 - 1]
      = take (nat (height im div 2)) (pixels im)"
    using crop_rows [OF assms, of 0 "height im div 2"] h by simp
  have b: "map (\<lambda>y. map (\<lambda>x. pixel_at im x y) [0..width im - 1]) [height im div 2..height im - 1]
      = drop (nat (height im div 2)) (pixels im)"
    using crop_rows [OF assms, of "height im div 2" "height im"] h by simp
  show ?thesis
    using h by (simp add: bisect_def crop_def bind_exn_def Let_def t b)
qed

text \<open>
  C2. For every image \<open>im\<close> of height \<open>H\<close> and width \<open>W\<close> whose pixel rows match its size
  (the RGB image the handler has after \<open>convert\<close> is one), the split returns two
  images: the top half has \<open>H div 2\<close> rows, namely the rows of \<open>im\<close> below index
  \<open>H div 2\<close>, the bottom half the rows from \<open>H div 2\<close> on; the row counts add up to \<open>H\<close>
  (so the bottom half has the extra row when \<open>H\<close> is odd), both keep the width and the
  mode, and the rows of the top half followed by those of the bottom half are the rows
  of \<open>im\<close>.
\<close>

theorem bisect_partitions_rows:
  assumes "wf_image im"
  shows "case bisect im of
           Inl e \<Rightarrow> False
         | Inr (top_half, bottom_half) \<Rightarrow>
             height top_half = height im div 2
           \<and> height top_half + height bottom_half = height im
           \<and> int (length (pixels top_half)) = height top_half
           \<and> int (length (pixels bottom_half)) = height bottom_half
           \<and> pixels top_half = take (nat (height im div 2)) (pixels im)
           \<and> pixels bottom_half = drop (nat (height im div 2)) (pixels im)
           \<and> pixels top_half @ pixels bottom_half = pixels im
           \<and> width top_half = width im \<and> width bottom_half = width im
           \<and> mode top_half = mode im \<and> mode bottom_half = mode im"
proof -
  have "0 \<le> height im" "int (length (pixels im)) = height im"
    using assms by (simp_all add: wf_image_def)
  then show ?thesis
    unfolding bisect_eq [OF assms] by auto
qed

theorem bisect_partitions_rows_witness:
  "wf_image sample_image
   \<and> bisect sample_image =
       Inr (\<lparr>mode = ''RGB'', width = 2, height = 1, pixels = [[1, 2]]\<rparr>,
            \<lparr>mode = ''RGB'', width = 2, height = 2, pixels = [[3, 4], [5, 6]]\<rparr>)"
proof -
  have w: "wf_image sample_image"
    by (simp add: wf_image_def sample_image_def)
  have "bisect sample_image =
       Inr (\<lparr>mode = ''RGB'', width = 2, height = 1, pixels = [[1, 2]]\<rparr>,
            \<lparr>mode = ''RGB'', width = 2, height = 2, pixels = [[3, 4], [5, 6]]\<rparr>)"
    using bisect_partitions_rows [OF w]
    by (auto simp: sample_image_def split: sum.splits)
  with w show ?thesis by simp
qed

section \<open>Choosing the preview image\<close>

lemma select_output_priority:
  "select_output result =
     (case dict_get result ''perspective_corrected'' of
        Some im \<Rightarrow> Some im
      | None \<Rightarrow> (case dict_get result ''cropped_table'' of
                   Some im \<Rightarrow> Some im
                 | None \<Rightarrow> dict_get result ''original''))"
  by (simp add: select_output_def or_else_def split: option.splits)

lemma preview_after_cropper:
  assumes "validate_image_content_type up = Inr ()" "body up \<noteq> []"
    and "process_image env (body up) (str_or (filename up) ''uploaded.png'') = Inr result"
  shows "crop_and_perspective_correction env up =
     rewrap_500 ''Processing failed: ''
       (bind_io (Inr (), [Cropper (body up) (str_or (filename up) ''uploaded.png'')])
          (\<lambda>_. case select_output result of
                  None \<Rightarrow> raise_io no_output
                | Some out_img \<Rightarrow> publish_preview env up out_img))"
  using assms
  by (simp add: crop_and_perspective_correction_def process_with_cropper_def bind_io_def
      bind_exn_def lib_def Let_def split: prod.splits)

lemma sample_upload_ok:
  "validate_image_content_type sample_upload = Inr ()" "body sample_upload \<noteq> []"
  "body sample_upload = ''raw''"
  "str_or (filename sample_upload) ''uploaded.png'' = ''scan.png''"
  by (code_simp, simp_all add: sample_upload_def str_or_def)

text \<open>
  C7. Let a valid, non-empty upload be processed and the cropper return the dict
  \<open>result\<close>. A candidate is present when the dict binds its name to an image, and absent
  when the name is unbound or bound to \<open>None\<close>. If \<open>perspective_corrected\<close> is present it
  is chosen, whatever else the dict holds; if it is absent and \<open>cropped_table\<close> is
  present, that one is chosen; if both are absent and \<open>original\<close> is present, that one
  is. In each case the handler goes on to trim, encode and publish exactly the chosen
  image. If all three are absent nothing is chosen, the handler raises HTTPException
  500 "Processing failed to produce an output image", and the trace holds the cropper
  call only: nothing was encoded or published.
\<close>

theorem preview_selects_by_priority:
  assumes "validate_image_content_type up = Inr ()" "body up \<noteq> []"
    and "process_image env (body up) (str_or (filename up) ''uploaded.png'') = Inr result"
  shows "(result ''perspective_corrected'' = Some (Some im) \<longrightarrow>
            select_output result = Some im
          \<and> crop_and_perspective_correction env up =
              rewrap_500 ''Processing failed: ''
                (bind_io (Inr (), [Cropper (body up) (str_or (filename up) ''uploaded.png'')])
                   (\<lambda>_. publish_preview env up im)))
    \<and> ((result ''perspective_corrected'' = None \<or> result ''perspective_corrected'' = Some None)
        \<and> result ''cropped_table'' = Some (Some im) \<longrightarrow>
            select_output result = Some im
          \<and> crop_and_perspective_correction env up =
              rewrap_500 ''Processing failed: ''
                (bind_io (Inr (), [Cropper (body up) (str_or (filename up) ''uploaded.png'')])
                   (\<lambda>_. publish_preview env up im)))
    \<and> ((result ''perspective_corrected'' = None \<or> result ''perspective_corrected'' = Some None)
        \<and> (result ''cropped_table'' = None \<or> result ''cropped_table'' = Some None)
        \<and> result ''original'' = Some (Some im) \<longrightarrow>
            select_output result = Some im
          \<and> crop_and_perspective_correction env up =
              rewrap_500 ''Processing failed: ''
                (bind_io (Inr (), [Cropper (body up) (str_or (filename up) ''uploaded.png'')])
                   (\<lambda>_. publish_preview env up im)))
    \<and> ((result ''perspective_corrected'' = None \<or> result ''perspective_corrected'' = Some None)
        \<and> (result ''cropped_table'' = None \<or> result ''cropped_table'' = Some None)
        \<and> (result ''original'' = None \<or> result ''original'' = Some None) \<longrightarrow>
            select_output result = None
          \<and> crop_and_perspective_correction env up =
              (Inl (HTTPException 500 ''Processing failed to produce an output image''),
               [Cropper (body up) (str_or (filename up) ''uploaded.png'')]))"
proof -
  have pub: "crop_and_perspective_correction env up =
      rewrap_500 ''Processing failed: ''
        (bind_io (Inr (), [Cropper (body up) (str_or (filename up) ''uploaded.png'')])
           (\<lambda>_. publish_preview env up im))"
    if "select_output result = Some im"
    unfolding preview_after_cropper [OF assms] that by simp
  have none: "crop_and_perspective_correction env up =
      (Inl (HTTPException 500 ''Processing failed to produce an output image''),
       [Cropper (body up) (str_or (filename up) ''uploaded.png'')])"
    if "select_output result = None"
    unfolding preview_after_cropper [OF assms] that
    by (simp add: bind_io_def raise_io_def rewrap_500_def no_output_def)
  have s1: "select_output result = Some im"
    if "result ''perspective_corrected'' = Some (Some im)"
    using that by (simp add: select_output_priority dict_get_def)
  have s2: "select_output result = Some im"
    if "result ''perspective_corrected'' = None \<or> result ''perspective_corrected'' = Some None"
      "result ''cropped_table'' = Some (Some im)"
    using that by (auto simp: select_output_priority dict_get_def)
  have s3: "select_output result = Some im"
    if "result ''perspective_corrected'' = None \<or> result ''perspective_corrected'' = Some None"
      "result ''cropped_table'' = None \<or> result ''cropped_table'' = Some None"
      "result ''original'' = Some (Some im)"
    using that by (auto simp: select_output_priority dict_get_def)
  have s4: "select_output result = None"
    if "result ''perspective_corrected'' = None \<or> result ''perspective_corrected'' = Some None"
      "result ''cropped_table'' = None \<or> result ''cropped_table'' = Some None"
      "result ''original'' = None \<or> result ''original'' = Some None"
    using that by (auto simp: select_output_priority dict_get_def)
  show ?thesis
    using s1 s2 s3 s4 pub none by blast
qed

theorem preview_selects_by_priority_witness:
  "select_output (map_of [(''original'', Some sample_image), (''cropped_table'', Some tiny_image),
       (''perspective_corrected'', Some trim_image)]) = Some trim_image
   \<and> select_output (map_of [(''original'', Some sample_image), (''perspective_corrected'', None),
       (''cropped_table'', Some tiny_image)]) = Some tiny_image
   \<and> select_output (map_of [(''original'', Some sample_image)]) = Some sample_image
   \<and> crop_and_perspective_correction fallback_env sample_upload =
       (Inr (JObj [(''status'', JStr ''success''),
                   (''filename'', JStr ''scan_preview.png''),
                   (''url'', JStr ''https://tmpfiles.org/dl/7/scan_preview.png'')]),
        [Cropper ''raw'' ''scan.png'', Encode tiny_image,
         Publish ''scan_preview.png'' [CHR 0x09]])
   \<and> crop_and_perspective_correction blank_env sample_upload =
       (Inl (HTTPException 500 ''Processing failed to produce an output image''),
        [Cropper ''raw'' ''scan.png''])"
proof -
  note ok = sample_upload_ok(1,2)
  have p1: "process_image rival_env (body sample_upload)
      (str_or (filename sample_upload) ''uploaded.png'') =
      Inr (map_of [(''original'', Some sample_image), (''cropped_table'', Some tiny_image),
                   (''perspective_corrected'', Some trim_image)])"
    by (simp add: rival_env_def rival_cropper_def)
  have p2: "process_image fallback_env (body sample_upload)
      (str_or (filename sample_upload) ''uploaded.png'') =
      Inr (map_of [(''original'', Some sample_image), (''perspective_corrected'', None),
                   (''cropped_table'', Some tiny_image)])"
    by (simp add: fallback_env_def fallback_cropper_def)
  have p3: "process_image sample_env (body sample_upload)
      (str_or (filename sample_upload) ''uploaded.png'') =
      Inr (map_of [(''original'', Some sample_image)])"
    by (simp add: sample_env_def sample_cropper_def)
  have p4: "process_image blank_env (body sample_upload)
      (str_or (filename sample_upload) ''uploaded.png'') =
      Inr (map_of [(''perspective_corrected'', None)])"
    by (simp add: blank_env_def blank_cropper_def)
  have pp: "publish_preview fallback_env sample_upload tiny_image =
       (Inr (JObj [(''status'', JStr ''success''),
                   (''filename'', JStr ''scan_preview.png''),
                   (''url'', JStr ''https://tmpfiles.org/dl/7/scan_preview.png'')]),
        [Encode tiny_image, Publish ''scan_preview.png'' [CHR 0x09]])"
    by code_simp
  have "select_output (map_of [(''original'', Some sample_image),
      (''cropped_table'', Some tiny_image), (''perspective_corrected'', Some trim_image)])
      = Some trim_image"
    using preview_selects_by_priority [OF ok p1, of trim_image] by simp
  moreover have "select_output (map_of [(''original'', Some sample_image),
        (''perspective_corrected'', None), (''cropped_table'', Some tiny_image)])
        = Some tiny_image
      \<and> crop_and_perspective_correction fallback_env sample_upload =
       (Inr (JObj [(''status'', JStr ''success''),
                   (''filename'', JStr ''scan_preview.png''),
                   (''url'', JStr ''https://tmpfiles.org/dl/7/scan_preview.png'')]),
        [Cropper ''raw'' ''scan.png'', Encode tiny_image,
         Publish ''scan_preview.png'' [CHR 0x09]])"
    using preview_selects_by_priority [OF ok p2, of tiny_image]
    by (simp add: pp sample_upload_ok bind_io_def rewrap_500_def)
  moreover have "select_output (map_of [(''original'', Some sample_image)]) = Some sample_image"
    using preview_selects_by_priority [OF ok p3, of sample_image] by simp
  moreover have "crop_and_perspective_correction blank_env sample_upload =
       (Inl (HTTPException 500 ''Processing failed to produce an output image''),
        [Cropper ''raw'' ''scan.png''])"
    using preview_selects_by_priority [OF ok p4, of sample_image]
    by (simp add: sample_upload_ok)
  ultimately show ?thesis by blast
qed

section \<open>The source of a split request\<close>

text \<open>
  C10. A split request with no file and the empty string as \<open>image_url\<close> is handled as
  one with no \<open>image_url\<close> at all: it is rejected with HTTPException 400 "Provide either
  'image' file or 'image_url' form field", and the trace is empty, so no download was
  attempted.
\<close>

theorem split_empty_url_is_missing:
  "split_image_halves env None (Some []) =
     (Inl (HTTPException 400
        (''Provide either '' @ quote ''image'' @ '' file or '' @ quote ''image_url''
           @ '' form field'')), [])
   \<and> split_image_halves env None (Some []) = split_image_halves env None None"
  by (simp add: split_image_halves_def resolve_source_def str_or_def raise_io_def bind_io_def
      rewrap_500_def missing_source_def)

theorem split_empty_url_is_missing_witness:
  "fst (split_image_halves sample_env None (Some [])) =
     Inl (HTTPException 400
        (''Provide either '' @ quote ''image'' @ '' file or '' @ quote ''image_url''
           @ '' form field''))
   \<and> snd (split_image_halves sample_env None (Some [])) = []"
  using split_empty_url_is_missing [of sample_env] by simp

text \<open>
  C1 as stated fails: a request that supplies both a file and an \<open>image_url\<close> is not
  rejected. On the sample environment it is answered with the two published halves of
  the file.
\<close>

theorem split_both_sources_counterexample:
  "split_image_halves sample_env (Some sample_upload) (Some ''http://example.com/a.png'') =
     (Inr (JObj
        [(''status'', JStr ''success''),
         (''top_half'',
          JObj [(''filename'', JStr ''scan_top_half.png''),
                (''url'', JStr ''https://tmpfiles.org/dl/7/scan_top_half.png'')]),
         (''bottom_half'',
          JObj [(''filename'', JStr ''scan_bottom_half.png''),
                (''url'', JStr ''https://tmpfiles.org/dl/7/scan_bottom_half.png'')])]),
      [Decode ''raw'',
       Encode \<lparr>mode = ''RGB'', width = 2, height = 1, pixels = [[1, 2]]\<rparr>,
       Encode \<lparr>mode = ''RGB'', width = 2, height = 2, pixels = [[3, 4], [5, 6]]\<rparr>,
       Publish ''scan_top_half.png'' [CHR 0x01, CHR 0x02],
       Publish ''scan_bottom_half.png'' [CHR 0x03, CHR 0x04, CHR 0x05, CHR 0x06]])"
  by code_simp

text \<open>
  C1, amended. A split request that supplies neither a file nor a non-empty
  \<open>image_url\<close> is rejected with HTTPException 400 and an empty trace: nothing is downloaded, decoded,
  encoded or published. A request that supplies a file is handled as if the file alone
  had been supplied, whatever \<open>image_url\<close> comes with it.
\<close>

theorem split_file_takes_precedence:
  "split_image_halves env None None =
     (Inl (HTTPException 400
        (''Provide either '' @ quote ''image'' @ '' file or '' @ quote ''image_url''
           @ '' form field'')), [])
   \<and> split_image_halves env None (Some []) =
     (Inl (HTTPException 400
        (''Provide either '' @ quote ''image'' @ '' file or '' @ quote ''image_url''
           @ '' form field'')), [])
   \<and> split_image_halves env (Some up) image_url = split_image_halves env (Some up) None"
  by (simp add: split_image_halves_def resolve_source_def str_or_def raise_io_def bind_io_def
      rewrap_500_def missing_source_def)

theorem split_file_takes_precedence_witness:
  "snd (split_image_halves sample_env None None) = []
   \<and> split_image_halves sample_env (Some sample_upload) (Some ''http://example.com/a.png'') =
     split_image_halves sample_env (Some sample_upload) None"
  using split_file_takes_precedence
          [of sample_env sample_upload "Some ''http://example.com/a.png''"]
  by simp

section \<open>Publishing the two halves\<close>

text \<open>What \<open>upload_to_tmpfiles\<close> raises on the two failures a hosting service can signal.\<close>

lemma upload_attempt_non_200:
  "http_post env file_name image_bytes = Inr response \<Longrightarrow> resp_status response \<noteq> 200 \<Longrightarrow>
   upload_attempt env image_bytes file_name = Inl (''Upload failed: '' @ resp_text response)"
  by (simp add: upload_attempt_def bind_exn_def)

lemma upload_attempt_non_success:
  "http_post env file_name image_bytes = Inr response \<Longrightarrow> resp_status response = 200 \<Longrightarrow>
   resp_json response = Inr (JObj kvs) \<Longrightarrow> map_of (rev kvs) ''status'' \<noteq> Some (JStr ''success'') \<Longrightarrow>
   upload_attempt env image_bytes file_name = Inl (''Upload failed: '' @ resp_text response)"
  by (auto simp: upload_attempt_def bind_exn_def split: option.splits)

text \<open>
  C5. Take a split request whose source resolves, decodes, converts, splits and encodes
  without error, with trace \<open>tr\<close> so far. The handler then publishes the top half and,
  only if that succeeded, the bottom half, each by one call of \<open>upload_to_tmpfiles\<close>.
  The answer is the success response exactly when both calls return a URL. If the
  second call fails with message \<open>m\<close>, the handler raises HTTPException 500 whose detail
  is "Split failed: Failed to upload to tmpfiles.org: " followed by \<open>m\<close>; the URL of the
  top half is no part of it. The trace shows the two calls, top first.
\<close>

theorem split_publishes_top_then_bottom:
  assumes "resolve_source env image_file image_url = (Inr (file_bytes, original_name), tr0)"
    and "image_open env file_bytes = Inr im0"
    and "convert env im0 ''RGB'' = Inr im"
    and "bisect im = Inr (top_half, bottom_half)"
    and "pil_to_png_bytes env top_half = (Inr top_bytes, tr1)"
    and "pil_to_png_bytes env bottom_half = (Inr bottom_bytes, tr2)"
    and "top_name = fst (splitext (basename original_name)) @ ''_top_half.png''"
    and "bottom_name = fst (splitext (basename original_name)) @ ''_bottom_half.png''"
    and "tr = tr0 @ [Decode file_bytes] @ tr1 @ tr2"
  shows "split_image_halves env image_file image_url =
     (case upload_attempt env top_bytes top_name of
        Inl m \<Rightarrow>
          (Inl (HTTPException 500 (''Split failed: Failed to upload to tmpfiles.org: '' @ m)),
           tr @ [Publish top_name top_bytes])
      | Inr top_url \<Rightarrow>
          (case upload_attempt env bottom_bytes bottom_name of
             Inl m \<Rightarrow>
               (Inl (HTTPException 500 (''Split failed: Failed to upload to tmpfiles.org: '' @ m)),
                tr @ [Publish top_name top_bytes, Publish bottom_name bottom_bytes])
           | Inr bottom_url \<Rightarrow>
               (Inr (JObj [(''status'', JStr ''success''),
                      (''top_half'', JObj [(''filename'', JStr top_name), (''url'', JStr top_url)]),
                      (''bottom_half'',
                         JObj [(''filename'', JStr bottom_name), (''url'', JStr bottom_url)])]),
                tr @ [Publish top_name top_bytes, Publish bottom_name bottom_bytes])))"
  using assms
  by (simp add: split_image_halves_def bind_io_def lib_def upload_to_tmpfiles_def Let_def
      return_io_def rewrap_500_def split: sum.splits)

theorem split_publishes_top_then_bottom_witness:
  "split_image_halves failing_env (Some sample_upload) None =
     (Inl (HTTPException 500
        ''Split failed: Failed to upload to tmpfiles.org: Upload failed: busy''),
      [Decode ''raw'',
       Encode \<lparr>mode = ''RGB'', width = 2, height = 1, pixels = [[1, 2]]\<rparr>,
       Encode \<lparr>mode = ''RGB'', width = 2, height = 2, pixels = [[3, 4], [5, 6]]\<rparr>,
       Publish ''scan_top_half.png'' [CHR 0x01, CHR 0x02],
       Publish ''scan_bottom_half.png'' [CHR 0x03, CHR 0x04, CHR 0x05, CHR 0x06]])"
proof -
  have h1: "resolve_source failing_env (Some sample_upload) None = (Inr (''raw'', ''scan.png''), [])"
    by code_simp
  have h2: "image_open failing_env ''raw'' = Inr sample_image"
    by (simp add: failing_env_def sample_env_def)
  have h3: "convert failing_env sample_image ''RGB'' = Inr sample_image"
    by (simp add: failing_env_def sample_env_def sample_image_def)
  have h4: "bisect sample_image =
      Inr (\<lparr>mode = ''RGB'', width = 2, height = 1, pixels = [[1, 2]]\<rparr>,
           \<lparr>mode = ''RGB'', width = 2, height = 2, pixels = [[3, 4], [5, 6]]\<rparr>)"
    by code_simp
  have h5: "pil_to_png_bytes failing_env
      \<lparr>mode = ''RGB'', width = 2, height = 1, pixels = [[1, 2]]\<rparr> =
      (Inr [CHR 0x01, CHR 0x02],
       [Encode \<lparr>mode = ''RGB'', width = 2, height = 1, pixels = [[1, 2]]\<rparr>])"
    by code_simp
  have h6: "pil_to_png_bytes failing_env
      \<lparr>mode = ''RGB'', width = 2, height = 2, pixels = [[3, 4], [5, 6]]\<rparr> =
      (Inr [CHR 0x03, CHR 0x04, CHR 0x05, CHR 0x06],
       [Encode \<lparr>mode = ''RGB'', width = 2, height = 2, pixels = [[3, 4], [5, 6]]\<rparr>])"
    by code_simp
  have h7: "''scan_top_half.png'' = fst (splitext (basename ''scan.png'')) @ ''_top_half.png''"
    by code_simp
  have h8: "''scan_bottom_half.png'' =
      fst (splitext (basename ''scan.png'')) @ ''_bottom_half.png''"
    by code_simp
  have u1: "upload_attempt failing_env [CHR 0x01, CHR 0x02] ''scan_top_half.png'' =
      Inr ''https://tmpfiles.org/dl/7/scan_top_half.png''"
    by code_simp
  have u2: "upload_attempt failing_env [CHR 0x03, CHR 0x04, CHR 0x05, CHR 0x06]
      ''scan_bottom_half.png'' = Inl ''Upload failed: busy''"
    by code_simp
  show ?thesis
    using split_publishes_top_then_bottom [OF h1 h2 h3 h4 h5 h6 h7 h8 refl]
    unfolding u1 u2 by simp
qed

section \<open>The URL of a published file\<close>

lemma startswith_nil [simp]: "startswith [] p = (p = [])"
  by (auto simp: startswith_def)

lemma str_replace_absent:
  "old \<noteq> [] \<Longrightarrow> \<not> contains old s \<Longrightarrow> str_replace s old new = s"
proof (induction s)
  case Nil
  then show ?case by (simp add: str_replace.simps)
next
  case (Cons c cs)
  then show ?case by (subst str_replace.simps) simp
qed

lemma str_replace_leading:
  "old \<noteq> [] \<Longrightarrow> startswith s old \<Longrightarrow> \<not> contains old (drop (length old) s) \<Longrightarrow>
   str_replace s old new = new @ drop (length old) s"
  by (subst str_replace.simps) (auto simp: str_replace_absent startswith_def)

text \<open>
  Where \<open>http://\<close> occurs at the start of the URL and nowhere else, the URL is
  normalised as intended: the scheme is upgraded, and \<open>tmpfiles.org/\<close> becomes
  \<open>tmpfiles.org/dl/\<close> unless \<open>/dl/\<close> occurs already.
\<close>

lemma normalize_file_url_leading_scheme:
  assumes "startswith u ''http://''" "\<not> contains ''http://'' (drop 7 u)"
  shows "normalize_file_url u =
     (if contains ''/dl/'' (''https://'' @ drop 7 u) then ''https://'' @ drop 7 u
      else str_replace (''https://'' @ drop 7 u) ''tmpfiles.org/'' ''tmpfiles.org/dl/'')"
proof -
  have r: "str_replace u ''http://'' ''https://'' = ''https://'' @ drop 7 u"
  proof -
    have len: "length ''http://'' = 7"
      by simp
    show ?thesis
      using assms str_replace_leading [of "''http://''" u "''https://''", unfolded len]
      by simp
  qed
  show ?thesis
  proof (cases "contains ''/dl/'' (''https://'' @ drop 7 u)")
    case True
    then show ?thesis
      unfolding normalize_file_url_def Let_def if_P [OF assms(1)] r
      by (simp only: if_True not_True_eq_False if_False)
  next
    case False
    then show ?thesis
      unfolding normalize_file_url_def Let_def if_P [OF assms(1)] r
      by (simp only: if_False not_False_eq_True if_True)
  qed
qed

lemma normalize_file_url_example:
  "normalize_file_url ''http://tmpfiles.org/abc123'' = ''https://tmpfiles.org/dl/abc123''"
  by code_simp

text \<open>
  C4. The claim has a URL that already contains \<open>/dl/\<close> keep its path, with only a
  leading \<open>http://\<close> replaced. The code calls \<open>str.replace\<close>, which rewrites every
  occurrence: on the URL below, which starts with \<open>http://\<close> and contains \<open>/dl/\<close>, the
  \<open>http://\<close> inside the path is rewritten too.
\<close>

theorem normalize_file_url_rewrites_inner_scheme:
  "normalize_file_url ''http://tmpfiles.org/dl/7/http://a.png'' =
     ''https://tmpfiles.org/dl/7/https://a.png''"
  by code_simp

section \<open>The preview trim\<close>

text \<open>
  What \<open>round_to_53_bits\<close> returns: the number itself when it has at most 53 bits, and
  otherwise a multiple of \<open>2 ^ k\<close> within half of \<open>2 ^ k\<close> of it, where \<open>k + 53\<close> is its
  bit length.
\<close>

lemma round_to_53_bits_cases:
  assumes "0 \<le> N"
  obtains (exact) "N < 2 ^ 53" "round_to_53_bits N = N"
  | (rounded) k :: nat where "0 < k" "2 ^ (k + 52) \<le> N" "N < 2 ^ (k + 53)"
      "2 ^ k dvd round_to_53_bits N" "\<bar>2 * (round_to_53_bits N - N)\<bar> \<le> 2 ^ k"
proof (cases "bitlen N - 53 \<le> 0")
  case True
  have "N < 2 ^ 53"
  proof (cases "N = 0")
    case False
    with assms have "N < 2 ^ nat (bitlen N)"
      using bitlen_bounds [of N] by simp
    also have "\<dots> \<le> (2::int) ^ 53"
      using True by (intro power_increasing) auto
    finally show ?thesis .
  qed simp
  moreover have "round_to_53_bits N = N"
    using True by (simp add: round_to_53_bits_def)
  ultimately show ?thesis by (rule exact)
next
  case False
  define k where "k = nat (bitlen N - 53)"
  have k: "0 < k" "int k = bitlen N - 53"
    using False by (simp_all add: k_def)
  have pos: "0 < N"
    using False assms bitlen_eq_zero_iff [of N] by (cases "N = 0") auto
  have n1: "nat (bitlen N - 1) = k + 52" and n2: "nat (bitlen N) = k + 53"
    using k by linarith+
  have lo: "2 ^ (k + 52) \<le> N" and hi: "N < 2 ^ (k + 53)"
    using bitlen_bounds [OF pos] unfolding n1 n2 by simp_all
  define u :: int where "u = 2 ^ k"
  have u: "0 < u" by (simp add: u_def)
  define q where "q = N div u"
  define r where "r = N mod u"
  have N: "N = q * u + r" and r: "0 \<le> r" "r < u"
    using u by (simp_all add: q_def r_def)
  have R: "round_to_53_bits N = (if u < 2 * r \<or> (2 * r = u \<and> odd q) then q + 1 else q) * u"
    using False by (simp add: round_to_53_bits_def Let_def k_def u_def q_def r_def)
  have d: "2 ^ k dvd round_to_53_bits N"
    unfolding R u_def by simp
  have "\<bar>2 * (round_to_53_bits N - N)\<bar> \<le> u"
    unfolding R using N r by (auto simp: algebra_simps)
  then have "\<bar>2 * (round_to_53_bits N - N)\<bar> \<le> 2 ^ k"
    by (simp add: u_def)
  with k(1) lo hi d show ?thesis by (rule rounded)
qed

lemma round_to_53_bits_small: "0 \<le> n \<Longrightarrow> n < 2 ^ 31 \<Longrightarrow> round_to_53_bits n = n"
proof (erule round_to_53_bits_cases)
  fix k :: nat
  assume "n < 2 ^ 31" "2 ^ (k + 52) \<le> n"
  then have "(2::int) ^ (k + 52) < 2 ^ 31" by linarith
  then have "k + 52 < 31"
    by (simp only: power_strict_increasing_iff semiring_norm)
  then show "round_to_53_bits n = n" by simp
qed

lemma multiple_above:
  fixes a b u :: int
  assumes "0 < u" "u dvd a" "u dvd b" "b - u < a"
  shows "b \<le> a"
proof -
  from assms(2,3) have "u dvd (a - b)" by (rule dvd_diff)
  then obtain j where j: "a - b = u * j" ..
  have "u * (- 1) < u * j"
    using assms(4) j by linarith
  have "- 1 < j"
  proof (rule ccontr)
    assume "\<not> - 1 < j"
    then have "j \<le> - 1" by simp
    then have "u * j \<le> u * (- 1)"
      using assms(1) by (intro mult_left_mono) auto
    with \<open>u * (- 1) < u * j\<close> show False by linarith
  qed
  then have "0 \<le> u * j"
    using assms(1) by simp
  with j show ?thesis by linarith
qed

text \<open>
  Truncating a rounded value: if \<open>R\<close> is the multiple of \<open>u\<close> nearest to \<open>N\<close>, \<open>u\<close>
  divides \<open>B\<close>, and \<open>N\<close> stays half of \<open>u\<close> clear of the next multiple of \<open>B\<close> above
  \<open>Q * B\<close>, then \<open>R div B\<close> is \<open>Q\<close>.
\<close>

lemma trunc_of_rounded:
  fixes R N Q B u :: int
  assumes "0 < u" "u dvd R" "u dvd B" "\<bar>2 * (R - N)\<bar> \<le> u"
    and "2 * (Q * B) < 2 * N + u" "2 * N + u < 2 * ((Q + 1) * B)"
  shows "R div B = Q"
proof -
  have a: "2 * N - u \<le> 2 * R" "2 * R \<le> 2 * N + u"
    using assms(4) by (simp_all add: abs_le_iff)
  have "Q * B - u < R"
    using a(1) assms(5) by linarith
  moreover have "u dvd Q * B"
    using assms(3) by simp
  ultimately have lo: "Q * B \<le> R"
    using multiple_above [OF assms(1) assms(2)] by blast
  have hi: "R < (Q + 1) * B"
    using a(2) assms(6) by linarith
  show ?thesis
  proof (rule int_div_pos_eq)
    show "R = B * Q + (R - Q * B)"
      by (simp add: algebra_simps)
    show "0 \<le> R - Q * B"
      using lo by simp
    show "R - Q * B < B"
      using hi by (simp add: algebra_simps)
  qed
qed

text \<open>
  \<open>int(0.27 * n)\<close>. The double nearest to 0.27 exceeds it by \<open>4 / (100 * 2 ^ 51)\<close>; below
  \<open>2 ^ 31\<close> neither this excess nor the rounding of the product reaches the next integer.
\<close>

lemma int_of_product_0_27:
  assumes "0 \<le> n" "n < 2 ^ 31"
  shows "int_of_product double_0_27 n = 27 * n div 100"
proof -
  define N where "N = 607985949695017 * n"
  define Q where "Q = 27 * n div 100"
  define r where "r = 27 * n mod 100"
  have qr: "27 * n = 100 * Q + r" "0 \<le> r" "r < 100"
    unfolding Q_def r_def
    by (rule mult_div_mod_eq [symmetric], rule pos_mod_sign, simp, rule pos_mod_bound, simp)
  have N0: "0 \<le> N"
    using assms by (simp add: N_def)
  have "round_to_53_bits N div 2 ^ 51 = Q"
    using N0
  proof (cases rule: round_to_53_bits_cases)
    case exact
    have "N div 2 ^ 51 = Q"
    proof (rule int_div_pos_eq)
      show "N = 2 ^ 51 * Q + (N - 2 ^ 51 * Q)" by simp
      show "0 \<le> N - 2 ^ 51 * Q" using qr assms by (simp add: N_def)
      show "N - 2 ^ 51 * Q < 2 ^ 51" using qr assms by (simp add: N_def)
    qed
    with exact show ?thesis by simp
  next
    case (rounded k)
    define u :: int where "u = 2 ^ k"
    have "(2::int) ^ (k + 52) < 2 ^ 81"
      using rounded(2) assms by (simp add: N_def)
    then have "k + 52 < 81"
      by (simp only: power_strict_increasing_iff semiring_norm)
    then have "k \<le> 51" by simp
    then have d: "u dvd 2 ^ 51"
      unfolding u_def by (rule le_imp_power_dvd)
    have u: "0 < u" "u * 2 ^ 52 \<le> N" "N < u * 2 ^ 53"
      using rounded(2,3) by (simp_all add: u_def power_add)
    show ?thesis
    proof (rule trunc_of_rounded [where u = u and N = N])
      show "0 < u" by (rule u)
      show "u dvd round_to_53_bits N" using rounded(4) by (simp add: u_def)
      show "u dvd 2 ^ 51" by (rule d)
      show "\<bar>2 * (round_to_53_bits N - N)\<bar> \<le> u" using rounded(5) by (simp add: u_def)
      show "2 * (Q * 2 ^ 51) < 2 * N + u" using qr assms u by (simp add: N_def)
      show "2 * N + u < 2 * ((Q + 1) * 2 ^ 51)" using qr assms u by (simp add: N_def)
    qed
  qed
  then show ?thesis
    using assms
    by (simp add: int_of_product_def double_0_27_def round_to_53_bits_small N_def Q_def)
qed

text \<open>
  \<open>int(0.12 * n)\<close>. The double nearest to 0.12 falls short of it by
  \<open>4 / (100 * 2 ^ 53)\<close>; where \<open>0.12 * n\<close> is an integer the product lies just below it,
  by less than half a unit in the last place, and is rounded up to it.
\<close>

lemma int_of_product_0_12:
  assumes "0 \<le> n" "n < 2 ^ 31"
  shows "int_of_product double_0_12 n = 12 * n div 100"
proof -
  define N where "N = 1080863910568919 * n"
  define Q where "Q = 12 * n div 100"
  define r where "r = 12 * n mod 100"
  have qr: "12 * n = 100 * Q + r" "0 \<le> r" "r < 100"
    unfolding Q_def r_def
    by (rule mult_div_mod_eq [symmetric], rule pos_mod_sign, simp, rule pos_mod_bound, simp)
  have N0: "0 \<le> N"
    using assms by (simp add: N_def)
  have "round_to_53_bits N div 2 ^ 53 = Q"
    using N0
  proof (cases rule: round_to_53_bits_cases)
    case exact
    then have "n \<le> 8"
      by (simp add: N_def)
    with assms qr have "Q = 0"
      by linarith
    with exact N0 show ?thesis by simp
  next
    case (rounded k)
    define u :: int where "u = 2 ^ k"
    have "(2::int) ^ (k + 52) < 2 ^ 82"
      using rounded(2) assms by (simp add: N_def)
    then have "k + 52 < 82"
      by (simp only: power_strict_increasing_iff semiring_norm)
    then have "k \<le> 53" by simp
    then have d: "u dvd 2 ^ 53"
      unfolding u_def by (rule le_imp_power_dvd)
    have u: "0 < u" "u * 2 ^ 52 \<le> N" "N < u * 2 ^ 53"
      using rounded(2,3) by (simp_all add: u_def power_add)
    show ?thesis
    proof (rule trunc_of_rounded [where u = u and N = N])
      show "0 < u" by (rule u)
      show "u dvd round_to_53_bits N" using rounded(4) by (simp add: u_def)
      show "u dvd 2 ^ 53" by (rule d)
      show "\<bar>2 * (round_to_53_bits N - N)\<bar> \<le> u" using rounded(5) by (simp add: u_def)
      show "2 * (Q * 2 ^ 53) < 2 * N + u" using qr assms u by (simp add: N_def)
      show "2 * N + u < 2 * ((Q + 1) * 2 ^ 53)" using qr assms u by (simp add: N_def)
    qed
  qed
  then show ?thesis
    using assms
    by (simp add: int_of_product_def double_0_12_def round_to_53_bits_small N_def Q_def)
qed

lemma floor_percent:
  "\<lfloor>0.27 * real_of_int w\<rfloor> = 27 * w div 100" "\<lfloor>0.12 * real_of_int h\<rfloor> = 12 * h div 100"
proof -
  have "0.27 * real_of_int w = real_of_int (27 * w) / real_of_int 100"
    by simp
  then show "\<lfloor>0.27 * real_of_int w\<rfloor> = 27 * w div 100"
    by (simp only: floor_divide_of_int_eq)
  have "0.12 * real_of_int h = real_of_int (12 * h) / real_of_int 100"
    by simp
  then show "\<lfloor>0.12 * real_of_int h\<rfloor> = 12 * h div 100"
    by (simp only: floor_divide_of_int_eq)
qed

lemma bind_io_pure: "bind_io (Inr a, []) f = f a"
  by (simp add: bind_io_def split: prod.splits)

lemma crop_row_window:
  assumes "wf_image im" "0 \<le> y" "y < height im" "0 \<le> l" "l \<le> r" "r \<le> width im"
  shows "map (\<lambda>x. pixel_at im x y) [l..r - 1] = take (nat (r - l)) (drop (nat l) (pixels im ! nat y))"
proof (rule nth_equalityI)
  have len: "int (length (pixels im ! nat y)) = width im"
    using assms by (auto simp: wf_image_def list_all_length)
  show "length (map (\<lambda>x. pixel_at im x y) [l..r - 1]) =
      length (take (nat (r - l)) (drop (nat l) (pixels im ! nat y)))"
    using assms len by simp
  fix i assume "i < length (map (\<lambda>x. pixel_at im x y) [l..r - 1])"
  then have i: "l + int i < r" by simp
  then have "[l..r - 1] ! i = l + int i"
    by (intro nth_upto) simp
  with i have "map (\<lambda>x. pixel_at im x y) [l..r - 1] ! i = pixel_at im (l + int i) y"
    by simp
  also have "\<dots> = pixels im ! nat y ! nat (l + int i)"
    using assms i by (simp add: pixel_at_def)
  also have "\<dots> = take (nat (r - l)) (drop (nat l) (pixels im ! nat y)) ! i"
    using assms i len by (simp add: nat_add_distrib)
  finally show "map (\<lambda>x. pixel_at im x y) [l..r - 1] ! i =
      take (nat (r - l)) (drop (nat l) (pixels im ! nat y)) ! i" .
qed

lemma crop_window:
  assumes "wf_image im" "0 \<le> u" "u \<le> b" "b \<le> height im" "0 \<le> l" "l \<le> r" "r \<le> width im"
  shows "map (\<lambda>y. map (\<lambda>x. pixel_at im x y) [l..r - 1]) [u..b - 1] = rectangle im l u r b"
  unfolding rectangle_def
proof (rule nth_equalityI)
  have len: "int (length (pixels im)) = height im"
    using assms by (simp add: wf_image_def)
  show "length (map (\<lambda>y. map (\<lambda>x. pixel_at im x y) [l..r - 1]) [u..b - 1]) =
      length (map (\<lambda>row. take (nat (r - l)) (drop (nat l) row))
        (take (nat (b - u)) (drop (nat u) (pixels im))))"
    using assms len by simp
  fix i assume "i < length (map (\<lambda>y. map (\<lambda>x. pixel_at im x y) [l..r - 1]) [u..b - 1])"
  then have i: "u + int i < b" by simp
  then have "map (\<lambda>y. map (\<lambda>x. pixel_at im x y) [l..r - 1]) [u..b - 1] ! i
      = map (\<lambda>x. pixel_at im x (u + int i)) [l..r - 1]"
    by simp
  also have "\<dots> = take (nat (r - l)) (drop (nat l) (pixels im ! nat (u + int i)))"
    using assms i by (intro crop_row_window) auto
  also have "\<dots> = map (\<lambda>row. take (nat (r - l)) (drop (nat l) row))
        (take (nat (b - u)) (drop (nat u) (pixels im))) ! i"
    using assms i len by (simp add: nat_add_distrib)
  finally show "map (\<lambda>y. map (\<lambda>x. pixel_at im x y) [l..r - 1]) [u..b - 1] ! i =
      map (\<lambda>row. take (nat (r - l)) (drop (nat l) row))
        (take (nat (b - u)) (drop (nat u) (pixels im))) ! i" .
qed

lemma preview_box_floor:
  assumes "0 \<le> w" "w < 2 ^ 31" "0 \<le> h" "h < 2 ^ 31"
  shows "preview_box w h =
      (\<lfloor>0.27 * real_of_int w\<rfloor>, 0, max (\<lfloor>0.27 * real_of_int w\<rfloor> + 1) w,
       max 1 (h - \<lfloor>0.12 * real_of_int h\<rfloor>))"
  unfolding floor_percent
  using assms by (simp add: preview_box_def int_of_product_0_27 int_of_product_0_12 Let_def)

lemma trim_inside:
  assumes "1 \<le> w" "1 \<le> h"
  shows "0 \<le> \<lfloor>0.27 * real_of_int w\<rfloor>" "\<lfloor>0.27 * real_of_int w\<rfloor> < w"
    "max (\<lfloor>0.27 * real_of_int w\<rfloor> + 1) w = w"
    "1 \<le> max 1 (h - \<lfloor>0.12 * real_of_int h\<rfloor>)" "max 1 (h - \<lfloor>0.12 * real_of_int h\<rfloor>) \<le> h"
  unfolding floor_percent using assms by linarith+

text \<open>
  C3. For a selected image \<open>im\<close> of width \<open>W\<close> and height \<open>H\<close> (Pillow keeps both in a C
  int, so they are below \<open>2 ^ 31\<close>), let \<open>l = floor (0.27 * W)\<close>, \<open>r = max (l + 1) W\<close> and
  \<open>b = max 1 (H - floor (0.12 * H))\<close>, the products and floors being those of real
  numbers. The box computed by the preview flow is \<open>(l, 0, r, b)\<close>; the crop to it raises
  nothing and yields the image \<open>out_img\<close> of size \<open>r - l\<close> by \<open>b\<close> whose pixel in column
  \<open>x\<close> and row \<open>y\<close> is the pixel of \<open>im\<close> in column \<open>l + x\<close> and row \<open>y\<close>; what
  \<open>publish_preview\<close>, and with it the handler, encodes and publishes is this \<open>out_img\<close>.
  When \<open>im\<close> is not empty the box lies inside it, its right edge is \<open>W\<close>, and the pixels
  retained are exactly those of the rectangle with edges \<open>l\<close>, 0, \<open>r\<close>, \<open>b\<close>: the first \<open>b\<close>
  rows with their first \<open>l\<close> pixels dropped. For \<open>W = 1000\<close> and \<open>H = 800\<close> the box is
  \<open>(270, 0, 1000, 704)\<close>.
\<close>

theorem preview_trim_rectangle:
  assumes "0 \<le> width im" "width im < 2 ^ 31" "0 \<le> height im" "height im < 2 ^ 31"
  shows "let l = \<lfloor>0.27 * real_of_int (width im)\<rfloor>;
             r = max (l + 1) (width im);
             b = max 1 (height im - \<lfloor>0.12 * real_of_int (height im)\<rfloor>);
             out_img = \<lparr>mode = mode im, width = r - l, height = b,
                        pixels = map (\<lambda>y. map (\<lambda>x. pixel_at im x y) [l..r - 1]) [0..b - 1]\<rparr>;
             file_name = fst (splitext (basename (str_or (filename up) ''uploaded'')))
                           @ ''_preview.png'';
             encode_and_publish =
               bind_io (pil_to_png_bytes env out_img) (\<lambda>png_bytes.
               bind_io (upload_to_tmpfiles env png_bytes file_name) (\<lambda>url.
                 return_io (JObj [(''status'', JStr ''success''),
                                  (''filename'', JStr file_name),
                                  (''url'', JStr url)])))
         in preview_box (width im) (height im) = (l, 0, r, b)
          \<and> crop im (l, 0, r, b) = Inr out_img
          \<and> publish_preview env up im = encode_and_publish
          \<and> (validate_image_content_type up = Inr () \<and> body up \<noteq> []
              \<and> process_image env (body up) (str_or (filename up) ''uploaded.png'') = Inr result
              \<and> select_output result = Some im \<longrightarrow>
                crop_and_perspective_correction env up =
                  rewrap_500 ''Processing failed: ''
                    (bind_io (Inr (), [Cropper (body up) (str_or (filename up) ''uploaded.png'')])
                       (\<lambda>_. encode_and_publish)))
          \<and> (wf_image im \<and> 1 \<le> width im \<and> 1 \<le> height im \<longrightarrow>
                l < width im \<and> r = width im \<and> b \<le> height im
              \<and> pixels out_img = rectangle im l 0 r b
              \<and> pixels out_img =
                  map (drop (nat l)) (take (nat b) (pixels im)))
          \<and> preview_box 1000 800 = (270, 0, 1000, 704)"
proof -
  define l where "l = \<lfloor>0.27 * real_of_int (width im)\<rfloor>"
  define r where "r = max (l + 1) (width im)"
  define b where "b = max 1 (height im - \<lfloor>0.12 * real_of_int (height im)\<rfloor>)"
  define out_img where "out_img = \<lparr>mode = mode im, width = r - l, height = b,
      pixels = map (\<lambda>y. map (\<lambda>x. pixel_at im x y) [l..r - 1]) [0..b - 1]\<rparr>"
  define file_name where
    "file_name = fst (splitext (basename (str_or (filename up) ''uploaded''))) @ ''_preview.png''"
  define encode_and_publish where "encode_and_publish =
      bind_io (pil_to_png_bytes env out_img) (\<lambda>png_bytes.
      bind_io (upload_to_tmpfiles env png_bytes file_name) (\<lambda>url.
        return_io (JObj [(''status'', JStr ''success''),
                         (''filename'', JStr file_name),
                         (''url'', JStr url)])))"
  have box: "preview_box (width im) (height im) = (l, 0, r, b)"
    unfolding l_def r_def b_def by (rule preview_box_floor [OF assms])
  have lr: "l < r" "0 < b"
    by (simp_all add: r_def b_def)
  have crop: "crop im (l, 0, r, b) = Inr out_img"
    using lr by (simp add: crop_def out_img_def)
  have pub: "publish_preview env up im = encode_and_publish"
    unfolding publish_preview_def box crop lib_def
    by (simp add: bind_io_pure encode_and_publish_def file_name_def Let_def)
  have handler: "crop_and_perspective_correction env up =
      rewrap_500 ''Processing failed: ''
        (bind_io (Inr (), [Cropper (body up) (str_or (filename up) ''uploaded.png'')])
           (\<lambda>_. encode_and_publish))"
    if "validate_image_content_type up = Inr ()" "body up \<noteq> []"
      "process_image env (body up) (str_or (filename up) ''uploaded.png'') = Inr result"
      "select_output result = Some im"
    unfolding preview_after_cropper [OF that(1,2,3)] that(4) by (simp add: pub)
  have inside: "l < width im \<and> r = width im \<and> b \<le> height im
      \<and> pixels out_img = rectangle im l 0 r b
      \<and> pixels out_img = map (drop (nat l)) (take (nat b) (pixels im))"
    if w: "wf_image im" "1 \<le> width im" "1 \<le> height im"
  proof -
    have t: "0 \<le> l" "l < width im" "r = width im" "1 \<le> b" "b \<le> height im"
      unfolding l_def r_def b_def using trim_inside [OF w(2,3)] by simp_all
    have p: "pixels out_img = rectangle im l 0 r b"
      using crop_window [OF w(1), of 0 b l r] t by (simp add: out_img_def)
    have "rectangle im l 0 r b = map (drop (nat l)) (take (nat b) (pixels im))"
    proof -
      have "take (nat (r - l)) (drop (nat l) row) = drop (nat l) row"
        if "row \<in> set (take (nat b) (pixels im))" for row
      proof -
        from that have "row \<in> set (pixels im)" by (rule in_set_takeD)
        then have "int (length row) = width im"
          using w(1) by (auto simp: wf_image_def list_all_iff)
        then show ?thesis using t by simp
      qed
      then show ?thesis by (simp add: rectangle_def)
    qed
    with p t show ?thesis by simp
  qed
  have ex: "preview_box 1000 800 = (270, 0, 1000, 704)"
    using preview_box_floor [of 1000 800] by simp
  show ?thesis
    unfolding Let_def
    using box crop pub handler inside ex
    unfolding l_def r_def b_def out_img_def file_name_def encode_and_publish_def
    by blast
qed

theorem preview_trim_rectangle_witness:
  "preview_box 4 9 = (1, 0, 4, 8)
   \<and> crop trim_image (1, 0, 4, 8) = Inr trimmed_image
   \<and> pixels trimmed_image = rectangle trim_image 1 0 4 8
   \<and> crop_and_perspective_correction rival_env sample_upload =
       (Inr (JObj [(''status'', JStr ''success''),
                   (''filename'', JStr ''scan_preview.png''),
                   (''url'', JStr ''https://tmpfiles.org/dl/7/scan_preview.png'')]),
        [Cropper ''raw'' ''scan.png'',
         Encode trimmed_image,
         Publish ''scan_preview.png'' (map char_of (concat (pixels trimmed_image)))])"
proof -
  have sz: "0 \<le> width trim_image" "width trim_image < 2 ^ 31"
    "0 \<le> height trim_image" "height trim_image < 2 ^ 31"
    by (simp_all add: trim_image_def)
  have wf: "wf_image trim_image \<and> 1 \<le> width trim_image \<and> 1 \<le> height trim_image"
    by (simp add: trim_image_def wf_image_def)
  have fl: "\<lfloor>0.27 * real_of_int (width trim_image)\<rfloor> = 1"
    "\<lfloor>0.12 * real_of_int (height trim_image)\<rfloor> = 1"
    unfolding floor_percent by (simp_all add: trim_image_def)
  have wh: "width trim_image = 4" "height trim_image = 9" "mode trim_image = ''RGB''"
    by (simp_all add: trim_image_def)
  have out: "\<lparr>mode = ''RGB'', width = 3, height = 8,
      pixels = map (\<lambda>y. map (\<lambda>x. pixel_at trim_image x y) [1..3]) [0..7]\<rparr> = trimmed_image"
    by code_simp
  have p: "process_image rival_env (body sample_upload)
      (str_or (filename sample_upload) ''uploaded.png'') =
      Inr (map_of [(''original'', Some sample_image), (''cropped_table'', Some tiny_image),
                   (''perspective_corrected'', Some trim_image)])"
    by (simp add: rival_env_def rival_cropper_def)
  have sel: "select_output (map_of [(''original'', Some sample_image),
      (''cropped_table'', Some tiny_image), (''perspective_corrected'', Some trim_image)])
      = Some trim_image"
    by code_simp
  note t = preview_trim_rectangle [OF sz, where env = rival_env and up = sample_upload
      and result = "map_of [(''original'', Some sample_image),
        (''cropped_table'', Some tiny_image), (''perspective_corrected'', Some trim_image)]",
      unfolded Let_def fl wh, simplified, unfolded out]
  have e: "rewrap_500 ''Processing failed: ''
       (bind_io (Inr (), [Cropper ''raw'' ''scan.png''])
          (\<lambda>_. bind_io (pil_to_png_bytes rival_env trimmed_image) (\<lambda>png_bytes.
             bind_io (upload_to_tmpfiles rival_env png_bytes
                 (fst (splitext (basename (str_or (filename sample_upload) ''uploaded'')))
                    @ ''_preview.png'')) (\<lambda>url.
               return_io (JObj [(''status'', JStr ''success''),
                  (''filename'', JStr (fst (splitext (basename
                      (str_or (filename sample_upload) ''uploaded''))) @ ''_preview.png'')),
                  (''url'', JStr url)]))))) =
       (Inr (JObj [(''status'', JStr ''success''),
                   (''filename'', JStr ''scan_preview.png''),
                   (''url'', JStr ''https://tmpfiles.org/dl/7/scan_preview.png'')]),
        [Cropper ''raw'' ''scan.png'',
         Encode trimmed_image,
         Publish ''scan_preview.png'' (map char_of (concat (pixels trimmed_image)))])"
    by code_simp
  have px: "map (\<lambda>y. map (\<lambda>x. pixel_at trim_image x y) [1..3]) [0..7] =
      pixels trimmed_image"
    by code_simp
  show ?thesis
    using t wf sample_upload_ok p sel e wh px by simp
qed

section \<open>The encoder\<close>

text \<open>
  \<open>_pil_to_png_bytes\<close> saves an image whose mode is RGB or RGBA as it is, and any other
  image after \<open>convert("RGB")\<close>.
\<close>

lemma pil_to_png_bytes_mode_gate:
  "pil_to_png_bytes env im =
     (if mode im = ''RGB'' \<or> mode im = ''RGBA'' then (lib (save_png env im), [Encode im])
      else (case convert env im ''RGB'' of
              Inl m \<Rightarrow> (Inl (Exception m), [])
            | Inr save_img \<Rightarrow> (lib (save_png env save_img), [Encode save_img])))"
  by (simp add: pil_to_png_bytes_def)

end
